theory Spec2Isabelle
  imports Complex_Main "HOL-Library.Multiset"
begin

section \<open>Data model of the rebound scanner (app3.py)\<close>

text \<open>
  Python floats are modelled as \<^typ>\<open>real\<close> (no rounding, no NaN). A \<open>datetime\<close> is a
  \<^typ>\<open>real\<close> number of hours since the epoch, so that \<open>now - timedelta(hours=h)\<close> is
  \<open>now - h\<close> and \<open>(b - a).total_seconds() / 3600\<close> is \<open>b - a\<close>. A kline row \<open>k\<close> of
  the provider is taken as already parsed: \<open>time\<close> is \<open>datetime.fromtimestamp(int(k[0]) / 1000)\<close>,
  \<open>high\<close>, \<open>low\<close> and \<open>close\<close> are \<open>float(k[2])\<close>, \<open>float(k[3])\<close>, \<open>float(k[4])\<close>.
\<close>

type_synonym datetime = real

record candle =
  time :: datetime
  high :: real
  low :: real
  close :: real

text \<open>The two fields of the 24h ticker that \<open>analyze_pair\<close> reads.\<close>

record ticker =
  lastPrice :: real
  quoteVolume :: real

text \<open>
  The outside world as the scanner sees it: the answer of \<open>get_all_usdt_pairs\<close> (the empty
  list on failure), of \<open>get_ticker_24hr\<close> and of \<open>get_klines\<close> (\<open>None\<close> on failure), the
  clock, \<open>strftime\<close> (which depends on the local time zone) and the formatting of a
  float under a format specification such as \<open>.2f\<close>. \<open>now wd symb i\<close> is the value of the
  \<open>i\<close>-th call of \<open>datetime.now()\<close> made while the symbol \<open>symb\<close> is analysed.
\<close>

record world =
  get_all_usdt_pairs :: "string list"
  get_ticker_24hr :: "string \<Rightarrow> ticker option"
  get_klines :: "string \<Rightarrow> string \<Rightarrow> int \<Rightarrow> candle list option"
  now :: "string \<Rightarrow> nat \<Rightarrow> datetime"
  strftime :: "string \<Rightarrow> datetime \<Rightarrow> string"
  format_float :: "string \<Rightarrow> real \<Rightarrow> string"

text \<open>The configuration fields of \<open>WebScanner.__init__\<close>, after \<open>float(...)\<close>.\<close>

record scanner =
  lookback_hours :: real
  lookback_48h_hours :: real
  lookback_96h_hours :: real
  lookback_21d_hours :: real
  min_price_change :: real
  min_volume_24h :: real
  max_drawdown :: real
  timeframe :: string
  timeframe_21d :: string
  filter_timeframe :: string
  filter_enabled :: bool
  green_circle_min :: real
  green_circle_max :: real

text \<open>The dictionary returned by \<open>analyze_time_window\<close>; its keys carry the prefix \<open>w_\<close>.\<close>

record window_analysis =
  w_low_price :: real
  w_low_time :: string
  w_high_price :: real
  w_high_time :: string
  w_price_change :: real

text \<open>
  The values of \<open>drawdown_flag\<close>. In the source each is a string made of a
  coloured-circle emoji and the name.
\<close>

datatype severity = CRITICAL | HIGH | MEDIUM | LOW | MINIMAL

text \<open>The dictionary returned by \<open>analyze_21d_with_drawdown\<close>.\<close>

record drawdown_analysis =
  d_high_21d_price :: real
  d_high_21d_time :: string
  d_drawdown_21d :: real
  d_drawdown_flag :: severity

section \<open>Built-ins\<close>

text \<open>\<open>int(x)\<close> on a float truncates towards zero.\<close>

definition py_int :: "real \<Rightarrow> int" where
  "py_int x = (if 0 \<le> x then \<lfloor>x\<rfloor> else \<lceil>x\<rceil>)"

text \<open>
  \<open>min(xs, key=f)\<close> and \<open>max(xs, key=f)\<close>: one pass that replaces the best element only
  by a strictly better one, so the first extremal element wins; \<open>ValueError\<close> on the
  empty list is \<open>None\<close>.
\<close>

fun min_key :: "('a \<Rightarrow> real) \<Rightarrow> 'a list \<Rightarrow> 'a option" where
  "min_key f [] = None"
| "min_key f (x # xs) = Some (fold (\<lambda>c best. if f c < f best then c else best) xs x)"

fun max_key :: "('a \<Rightarrow> real) \<Rightarrow> 'a list \<Rightarrow> 'a option" where
  "max_key f [] = None"
| "max_key f (x # xs) = Some (fold (\<lambda>c best. if f c > f best then c else best) xs x)"

section \<open>Window Analyzer: \<open>analyze_time_window\<close>\<close>

text \<open>
  The first lines of \<open>analyze_time_window\<close>: the candles per hour of an interval, and the
  number of candles to fetch, capped at 1000.
\<close>

definition candles_per_hour :: "string \<Rightarrow> real" where
  "candles_per_hour interval =
     (if interval = ''15m'' then 4
      else if interval = ''1h'' then 1
      else if interval = ''4h'' then 0.25
      else if interval = ''1d'' then 1 / 24
      else 1)"

definition kline_limit :: "real \<Rightarrow> real \<Rightarrow> int" where
  "kline_limit hours per_hour =
     (let limit = py_int (hours * per_hour) + 10
      in if limit > 1000 then 1000 else limit)"

text \<open>
  \<open>now_t\<close> is the value \<open>datetime.now()\<close> returns inside the call. \<open>not klines\<close> holds for
  \<open>None\<close> and for the empty list.
\<close>

definition analyze_time_window ::
  "world \<Rightarrow> datetime \<Rightarrow> string \<Rightarrow> real \<Rightarrow> string \<Rightarrow> window_analysis option" where
  "analyze_time_window wd now_t symb lookback interval =
     (case get_klines wd symb interval (kline_limit lookback (candles_per_hour interval)) of
        None \<Rightarrow> None
      | Some klines \<Rightarrow>
          if klines = [] \<or> length klines < 10 then None
          else
            let candles = sort_key time klines;
                cutoff_time = now_t - lookback;
                window_candles = filter (\<lambda>c. time c \<ge> cutoff_time) candles
            in if length window_candles < 5 then None
               else
                 (case min_key low window_candles of
                    None \<Rightarrow> None
                  | Some absolute_low \<Rightarrow>
                     (let low_price = low absolute_low;
                          low_time = time absolute_low;
                          candles_after_low = filter (\<lambda>c. time c > low_time) window_candles
                      in if candles_after_low = [] then None
                         else
                          (case max_key high candles_after_low of
                            None \<Rightarrow> None
                          | Some highest_after_low \<Rightarrow>
                             (let high_price = high highest_after_low;
                                  high_time = time highest_after_low
                              in if low_price \<le> 0 then None
                                 else
                                   (let price_change = ((high_price - low_price) / low_price) * 100;
                                        fmt = (if lookback \<ge> 24 then ''%m/%d %H:%M'' else ''%H:%M'')
                                    in Some \<lparr>w_low_price = low_price,
                                             w_low_time = strftime wd fmt low_time,
                                             w_high_price = high_price,
                                             w_high_time = strftime wd fmt high_time,
                                             w_price_change = price_change\<rparr>))))))"

section \<open>Drawdown Classifier: \<open>analyze_21d_with_drawdown\<close>\<close>

text \<open>The \<open>if\<close>/\<open>elif\<close> chain that turns the drawdown percentage into its flag.\<close>

definition drawdown_severity :: "real \<Rightarrow> severity" where
  "drawdown_severity drawdown_21d =
     (if drawdown_21d \<ge> 30 then CRITICAL
      else if drawdown_21d \<ge> 20 then HIGH
      else if drawdown_21d \<ge> 10 then MEDIUM
      else if drawdown_21d \<ge> 5 then LOW
      else MINIMAL)"

text \<open>The same choice in \<open>analyze_21d_with_drawdown\<close>, which has no branch for 15 minutes.\<close>

definition candles_per_hour_21d :: "string \<Rightarrow> real" where
  "candles_per_hour_21d interval =
     (if interval = ''1h'' then 1
      else if interval = ''4h'' then 0.25
      else if interval = ''1d'' then 1 / 24
      else 1)"

definition analyze_21d_with_drawdown ::
  "scanner \<Rightarrow> world \<Rightarrow> datetime \<Rightarrow> string \<Rightarrow> real \<Rightarrow> drawdown_analysis option" where
  "analyze_21d_with_drawdown sc wd now_t symb current_price =
     (case get_klines wd symb (timeframe_21d sc)
             (kline_limit (lookback_21d_hours sc) (candles_per_hour_21d (timeframe_21d sc))) of
        None \<Rightarrow> None
      | Some klines \<Rightarrow>
          if klines = [] \<or> length klines < 10 then None
          else
            let candles = sort_key time klines;
                cutoff_time = now_t - lookback_21d_hours sc;
                window_candles = filter (\<lambda>c. time c \<ge> cutoff_time) candles
            in if length window_candles < 5 then None
               else
                 (case max_key high window_candles of
                    None \<Rightarrow> None
                  | Some absolute_high \<Rightarrow>
                     (let high_price = high absolute_high;
                          high_time = time absolute_high
                      in if high_price \<le> 0 then None
                         else
                           (let drawdown_21d = ((high_price - current_price) / high_price) * 100
                            in Some \<lparr>d_high_21d_price = high_price,
                                     d_high_21d_time = strftime wd ''%m/%d %H:%M'' high_time,
                                     d_drawdown_21d = drawdown_21d,
                                     d_drawdown_flag = drawdown_severity drawdown_21d\<rparr>))))"

section \<open>Symbol Pipeline: \<open>analyze_pair\<close>\<close>

text \<open>The dataclass \<open>ReboundResult\<close>.\<close>

record ReboundResult =
  symbol :: string
  current_price :: real
  rebound_pct :: real
  rebound_hours :: real
  drawdown_from_high :: real
  drawdown_21d :: real
  drawdown_flag :: severity
  price_change_48h :: real
  price_change_96h :: real
  price_change_21d :: real
  volume_24h :: real
  low_price :: real
  low_time :: string
  high_price :: real
  high_time :: string
  low_48h_price :: real
  low_48h_time :: string
  high_48h_price :: real
  high_48h_time :: string
  low_96h_price :: real
  low_96h_time :: string
  high_96h_price :: real
  high_96h_time :: string
  low_21d_price :: real
  low_21d_time :: string
  high_21d_price :: real
  high_21d_time :: string
  high_21d_for_drawdown :: real
  high_21d_time_for_drawdown :: string
  time_display :: string
  candles_count :: int
  scan_time :: string

text \<open>Decimal digits of an integer, as an f-string prints it.\<close>

fun show_nat :: "nat \<Rightarrow> string" where
  "show_nat n =
     (if n < 10 then [char_of (48 + n)]
      else show_nat (n div 10) @ [char_of (48 + n mod 10)])"

declare show_nat.simps [simp del]

definition show_int :: "int \<Rightarrow> string" where
  "show_int i = (if i < 0 then ''-'' @ show_nat (nat (- i)) else show_nat (nat i))"

text \<open>
  \<open>format_time_display\<close>. On floats \<open>x // d\<close> is \<open>floor (x / d)\<close> and \<open>x % d\<close> is
  \<open>x - d * floor (x / d)\<close>.
\<close>

definition format_time_display :: "real \<Rightarrow> string" where
  "format_time_display hours =
     (if hours \<ge> 24 then
        (let days = py_int (of_int \<lfloor>hours / 24\<rfloor>);
             remaining_hours = py_int (hours - 24 * of_int \<lfloor>hours / 24\<rfloor>)
         in if remaining_hours > 0 then show_int days @ ''d'' @ show_int remaining_hours @ ''h''
            else show_int days @ ''d'')
      else if hours \<ge> 1 then
        (let whole_hours = py_int (of_int \<lfloor>hours\<rfloor>);
             minutes = py_int ((hours - of_int \<lfloor>hours\<rfloor>) * 60)
         in if minutes > 0 then show_int whole_hours @ ''h'' @ show_int minutes @ ''m''
            else show_int whole_hours @ ''h'')
      else
        (let minutes = py_int (hours * 60)
         in show_int minutes @ ''m''))"

definition get_filter_price_change :: "scanner \<Rightarrow> ReboundResult \<Rightarrow> real" where
  "get_filter_price_change sc result =
     (if filter_timeframe sc = ''48h'' then price_change_48h result
      else if filter_timeframe sc = ''96h'' then price_change_96h result
      else if filter_timeframe sc = ''21d'' then price_change_21d result
      else price_change_48h result)"

text \<open>\<open>candle_limit_recent\<close>, computed in \<open>__init__\<close> (no cap at 1000 there).\<close>

definition candles_per_hour_15m :: "scanner \<Rightarrow> real" where
  "candles_per_hour_15m sc =
     (if timeframe sc = ''15m'' then 4 else if timeframe sc = ''1h'' then 1 else 0.25)"

definition candle_limit_recent :: "scanner \<Rightarrow> int" where
  "candle_limit_recent sc = py_int (lookback_hours sc * candles_per_hour_15m sc) + 10"

text \<open>
  \<open>analyze_pair\<close>. The calls of \<open>datetime.now()\<close> are numbered in the order the source
  makes them: one in each of the four analyser calls, one for the recent window's cutoff
  and one for \<open>scan_time\<close>. The block under \<open>if self.filter_enabled\<close> asks whether an
  analysis that has just been found present \<open>is None\<close>.
\<close>

definition analyze_pair :: "scanner \<Rightarrow> world \<Rightarrow> string \<Rightarrow> ReboundResult option" where
  "analyze_pair sc wd symb =
     (case get_ticker_24hr wd symb of
        None \<Rightarrow> None
      | Some ticker \<Rightarrow>
         (let current_price = lastPrice ticker;
              volume_24h = quoteVolume ticker
          in if volume_24h < min_volume_24h sc then None
             else
              (case analyze_time_window wd (now wd symb 0) symb (lookback_48h_hours sc) (timeframe sc) of
                 None \<Rightarrow> None
               | Some analysis_48h \<Rightarrow>
              (case analyze_time_window wd (now wd symb 1) symb (lookback_96h_hours sc) (timeframe sc) of
                 None \<Rightarrow> None
               | Some analysis_96h \<Rightarrow>
              (case analyze_time_window wd (now wd symb 2) symb (lookback_21d_hours sc) (timeframe_21d sc) of
                 None \<Rightarrow> None
               | Some analysis_21d \<Rightarrow>
              (case analyze_21d_with_drawdown sc wd (now wd symb 3) symb current_price of
                 None \<Rightarrow> None
               | Some analysis_21d_drawdown \<Rightarrow>
                 if filter_enabled sc \<and>
                    ((filter_timeframe sc = ''48h'' \<and> Some analysis_48h = None) \<or>
                     (filter_timeframe sc = ''96h'' \<and> Some analysis_96h = None) \<or>
                     (filter_timeframe sc = ''21d'' \<and> Some analysis_21d = None))
                 then None
                 else
              (case get_klines wd symb (timeframe sc) (candle_limit_recent sc) of
                 None \<Rightarrow> None
               | Some klines \<Rightarrow>
                 if klines = [] \<or> length klines < 4 then None
                 else
                  (let candles = sort_key time klines;
                       cutoff_time = now wd symb 4 - lookback_hours sc;
                       recent_candles = filter (\<lambda>c. time c \<ge> cutoff_time) candles
                   in if length recent_candles < 4 then None
                      else
                       (let recent_lows = map (\<lambda>c. (low c, time c)) recent_candles
                        in (case min_key fst recent_lows of
                              None \<Rightarrow> None
                            | Some absolute_low \<Rightarrow>
                               (let low_price = fst absolute_low;
                                    low_time = snd absolute_low;
                                    candles_after_low =
                                      filter (\<lambda>c. time c > low_time) recent_candles
                                in if candles_after_low = [] then None
                                   else
                                    (case max_key high candles_after_low of
                                       None \<Rightarrow> None
                                     | Some highest_after_low \<Rightarrow>
                                        (let high_price = high highest_after_low;
                                             high_time = time highest_after_low;
                                             time_diff_hours = high_time - low_time
                                         in if time_diff_hours > lookback_hours sc then None
                                            else if low_price \<le> 0 then None
                                            else
                                             (let rebound_pct =
                                                    ((high_price - low_price) / low_price) * 100
                                              in if rebound_pct < min_price_change sc then None
                                                 else if high_price \<le> 0 then None
                                                 else
                                                  (let drawdown =
                                                         ((high_price - current_price) / high_price) * 100
                                                   in if drawdown > max_drawdown sc then None
                                                      else
                                                       Some \<lparr>
  symbol = symb,
  current_price = current_price,
  rebound_pct = rebound_pct,
  rebound_hours = time_diff_hours,
  drawdown_from_high = drawdown,
  drawdown_21d = d_drawdown_21d analysis_21d_drawdown,
  drawdown_flag = d_drawdown_flag analysis_21d_drawdown,
  price_change_48h = w_price_change analysis_48h,
  price_change_96h = w_price_change analysis_96h,
  price_change_21d = w_price_change analysis_21d,
  volume_24h = volume_24h,
  low_price = low_price,
  low_time = strftime wd ''%H:%M'' low_time,
  high_price = high_price,
  high_time = strftime wd ''%H:%M'' high_time,
  low_48h_price = w_low_price analysis_48h,
  low_48h_time = w_low_time analysis_48h,
  high_48h_price = w_high_price analysis_48h,
  high_48h_time = w_high_time analysis_48h,
  low_96h_price = w_low_price analysis_96h,
  low_96h_time = w_low_time analysis_96h,
  high_96h_price = w_high_price analysis_96h,
  high_96h_time = w_high_time analysis_96h,
  low_21d_price = w_low_price analysis_21d,
  low_21d_time = w_low_time analysis_21d,
  high_21d_price = w_high_price analysis_21d,
  high_21d_time = w_high_time analysis_21d,
  high_21d_for_drawdown = d_high_21d_price analysis_21d_drawdown,
  high_21d_time_for_drawdown = d_high_21d_time analysis_21d_drawdown,
  time_display = format_time_display time_diff_hours,
  candles_count = int (length recent_candles),
  scan_time = strftime wd ''%H:%M:%S'' (now wd symb 5)\<rparr>)))))))))))))))"

text \<open>
  The candles of a series that fall in the lookback window, in the order both analysers
  and \<open>analyze_pair\<close> build them: sort by time, keep what is not older than the cutoff.
\<close>

definition lookback_window :: "datetime \<Rightarrow> real \<Rightarrow> candle list \<Rightarrow> candle list" where
  "lookback_window now_t lookback klines =
     filter (\<lambda>c. time c \<ge> now_t - lookback) (sort_key time klines)"

text \<open>
  The \<open>ReboundResult\<close> that \<open>analyze_pair\<close> assembles from the ticker, the four
  analyses, the recent window and its two anchors (the low anchor is a pair of price and
  time); used to state what \<open>analyze_pair\<close> returns.
\<close>

definition assemble ::
  "world \<Rightarrow> string \<Rightarrow> ticker \<Rightarrow> window_analysis \<Rightarrow> window_analysis \<Rightarrow> window_analysis
   \<Rightarrow> drawdown_analysis \<Rightarrow> candle list \<Rightarrow> real \<times> datetime \<Rightarrow> candle \<Rightarrow> ReboundResult" where
  "assemble wd symb tk a48 a96 a21 dd recent lo hi =
     \<lparr>symbol = symb,
      current_price = lastPrice tk,
      rebound_pct = ((high hi - fst lo) / fst lo) * 100,
      rebound_hours = time hi - snd lo,
      drawdown_from_high = ((high hi - lastPrice tk) / high hi) * 100,
      drawdown_21d = d_drawdown_21d dd,
      drawdown_flag = d_drawdown_flag dd,
      price_change_48h = w_price_change a48,
      price_change_96h = w_price_change a96,
      price_change_21d = w_price_change a21,
      volume_24h = quoteVolume tk,
      low_price = fst lo,
      low_time = strftime wd ''%H:%M'' (snd lo),
      high_price = high hi,
      high_time = strftime wd ''%H:%M'' (time hi),
      low_48h_price = w_low_price a48,
      low_48h_time = w_low_time a48,
      high_48h_price = w_high_price a48,
      high_48h_time = w_high_time a48,
      low_96h_price = w_low_price a96,
      low_96h_time = w_low_time a96,
      high_96h_price = w_high_price a96,
      high_96h_time = w_high_time a96,
      low_21d_price = w_low_price a21,
      low_21d_time = w_low_time a21,
      high_21d_price = w_high_price a21,
      high_21d_time = w_high_time a21,
      high_21d_for_drawdown = d_high_21d_price dd,
      high_21d_time_for_drawdown = d_high_21d_time dd,
      time_display = format_time_display (time hi - snd lo),
      candles_count = int (length recent),
      scan_time = strftime wd ''%H:%M:%S'' (now wd symb 5)\<rparr>"

section \<open>Scan Coordinator: \<open>WebScanner.scan\<close>\<close>

text \<open>The dictionary \<open>scan_progress\<close>, as \<open>update_progress\<close> builds it.\<close>

record progress =
  p_current :: int
  p_total :: int
  p_status :: string
  p_percentage :: int

definition update_progress :: "int \<Rightarrow> int \<Rightarrow> string \<Rightarrow> progress" where
  "update_progress current total_n status =
     \<lparr>p_current = current, p_total = total_n, p_status = status,
      p_percentage =
        (if total_n > 0 then py_int ((real_of_int current / real_of_int total_n) * 100) else 0)\<rparr>"

text \<open>
  \<open>list.sort(key=f, reverse=True)\<close>: the list is reversed, sorted stably and reversed
  again.
\<close>

definition sort_reverse :: "('a \<Rightarrow> real) \<Rightarrow> 'a list \<Rightarrow> 'a list" where
  "sort_reverse f xs = rev (sort_key f (rev xs))"

text \<open>
  The loop over \<open>as_completed(future_to_symbol)\<close>. Its list argument holds the symbols in
  the order in which their futures complete; \<open>published\<close> collects the values the
  progress callback is called with.
\<close>

fun scan_loop ::
  "scanner \<Rightarrow> world \<Rightarrow> int \<Rightarrow> string list \<Rightarrow> ReboundResult list \<Rightarrow> int \<Rightarrow> progress list
   \<Rightarrow> ReboundResult list \<times> progress list" where
  "scan_loop sc wd total_pairs [] results processed published = (results, published)"
| "scan_loop sc wd total_pairs (symb # rest) results processed published =
     (let results' = (case analyze_pair sc wd symb of
                        None \<Rightarrow> results
                      | Some result \<Rightarrow> results @ [result]);
          processed' = processed + 1;
          published' =
            (if processed' mod 10 = 0
             then published @
                    [update_progress processed' total_pairs
                       (''Scanning... '' @ show_int processed' @ ''/'' @ show_int total_pairs)]
             else published)
      in scan_loop sc wd total_pairs rest results' processed' published')"

text \<open>
  \<open>scan\<close>, for a scanner that has a progress callback (the route always passes one).
  \<open>completed\<close> is the completion order of the futures, a rearrangement of the submitted
  symbols. The result is the sorted list and the sequence of callback values.
\<close>

definition scan :: "scanner \<Rightarrow> world \<Rightarrow> string list \<Rightarrow> ReboundResult list \<times> progress list" where
  "scan sc wd completed =
     (let pairs = get_all_usdt_pairs wd
      in if pairs = [] then ([], [])
         else
          (let total_pairs = int (length pairs);
               started = [update_progress 0 total_pairs ''Starting scan...''];
               (results, published) = scan_loop sc wd total_pairs completed [] 0 started;
               published = published @ [update_progress total_pairs total_pairs ''Sorting results...''];
               results = sort_reverse (get_filter_price_change sc) results
           in (results, published)))"

section \<open>The route \<open>/scan\<close>\<close>

text \<open>The globals of the application.\<close>

record app_state =
  latest_results :: "ReboundResult list"
  last_scan_time :: "datetime option"
  scan_progress :: progress

text \<open>
  One entry of \<open>results_dict\<close>: \<open>asdict(r)\<close> together with the keys whose values are
  overwritten by formatted strings.
\<close>

definition result_row :: "world \<Rightarrow> ReboundResult \<Rightarrow> ReboundResult \<times> (string \<times> string) list" where
  "result_row wd r =
     (r, [(''current_price'', ''$'' @ format_float wd ''.4f'' (current_price r)),
          (''rebound_pct'', format_float wd ''.2f'' (rebound_pct r) @ ''%''),
          (''price_change_48h'', format_float wd ''.2f'' (price_change_48h r) @ ''%''),
          (''price_change_96h'', format_float wd ''.2f'' (price_change_96h r) @ ''%''),
          (''price_change_21d'', format_float wd ''.2f'' (price_change_21d r) @ ''%''),
          (''drawdown_from_high'', format_float wd ''.2f'' (drawdown_from_high r) @ ''%''),
          (''drawdown_21d'', format_float wd ''.2f'' (drawdown_21d r) @ ''%''),
          (''volume_24h'', ''$'' @ format_float wd '',.0f'' (volume_24h r))])"

text \<open>The JSON object the route answers with on success.\<close>

record scan_response =
  r_success :: bool
  r_count :: int
  r_results :: "(ReboundResult \<times> (string \<times> string) list) list"
  r_scan_time :: string

text \<open>
  The body of the route's \<open>try\<close> block for a configuration that parses. \<open>finished\<close> is
  the value of \<open>datetime.now()\<close> under the lock. The first component of the result is the
  sequence of values assigned to the global \<open>scan_progress\<close> during the request, in order.
\<close>

definition scan_route ::
  "scanner \<Rightarrow> world \<Rightarrow> string list \<Rightarrow> datetime \<Rightarrow> app_state
   \<Rightarrow> progress list \<times> app_state \<times> scan_response" where
  "scan_route sc wd completed finished st =
     (let starting = \<lparr>p_current = 0, p_total = 0, p_status = ''starting'', p_percentage = 0\<rparr>;
          (results, published) = scan sc wd completed;
          complete = \<lparr>p_current = 0, p_total = 0, p_status = ''complete'', p_percentage = 100\<rparr>;
          st' = st\<lparr>latest_results := results, last_scan_time := Some finished,
                     scan_progress := complete\<rparr>;
          results_dict = map (result_row wd) (take 100 results)
      in (starting # published @ [complete], st',
          \<lparr>r_success = True, r_count = int (length results), r_results = results_dict,
           r_scan_time = strftime wd ''%Y-%m-%d %H:%M:%S'' finished\<rparr>))"

section \<open>Concurrent requests to \<open>/scan\<close>\<close>

text \<open>
  The server started by \<open>app.run(debug=True, host='0.0.0.0', port=5000)\<close> serves every
  request in a thread of its own, so the bodies of the route for different requests
  interleave. A request is identified by a number; the steps of its route body are:
  it arrives and starts \<open>scanner.scan()\<close>; the scan returns; it enters
  \<open>with scan_lock\<close>, which needs the lock to be free; it stores \<open>latest_results\<close> and
  \<open>last_scan_time\<close> and leaves the block, which frees the lock; it publishes the
  \<open>complete\<close> progress value and returns its response. The route has no other use of
  \<open>scan_lock\<close> and no test of whether another scan is running.
\<close>

datatype phase = Absent | Scanning | Waiting | Storing | Finishing | Responded

text \<open>The phase of every request and the holder of \<open>scan_lock\<close>.\<close>

record server =
  phase_of :: "nat \<Rightarrow> phase"
  lock_holder :: "nat option"

definition server_start :: server where
  "server_start = \<lparr>phase_of = (\<lambda>i. Absent), lock_holder = None\<rparr>"

text \<open>One step of one request.\<close>

inductive route_step :: "server \<Rightarrow> server \<Rightarrow> bool" where
  arrive: "phase_of s i = Absent \<Longrightarrow>
     route_step s (s\<lparr>phase_of := (phase_of s)(i := Scanning)\<rparr>)"
| scanned: "phase_of s i = Scanning \<Longrightarrow>
     route_step s (s\<lparr>phase_of := (phase_of s)(i := Waiting)\<rparr>)"
| enter: "phase_of s i = Waiting \<Longrightarrow> lock_holder s = None \<Longrightarrow>
     route_step s (s\<lparr>phase_of := (phase_of s)(i := Storing), lock_holder := Some i\<rparr>)"
| leave: "phase_of s i = Storing \<Longrightarrow>
     route_step s (s\<lparr>phase_of := (phase_of s)(i := Finishing), lock_holder := None\<rparr>)"
| respond: "phase_of s i = Finishing \<Longrightarrow>
     route_step s (s\<lparr>phase_of := (phase_of s)(i := Responded)\<rparr>)"

text \<open>The states the server can be in.\<close>

inductive served :: "server \<Rightarrow> bool" where
  initially: "served server_start"
| after: "served s \<Longrightarrow> route_step s t \<Longrightarrow> served t"

text \<open>How many steps a request still has to take.\<close>

fun steps_left :: "phase \<Rightarrow> nat" where
  "steps_left Absent = 5"
| "steps_left Scanning = 4"
| "steps_left Waiting = 3"
| "steps_left Storing = 2"
| "steps_left Finishing = 1"
| "steps_left Responded = 0"

text \<open>The lock is held exactly by a request that is storing.\<close>

definition lock_agrees :: "server \<Rightarrow> bool" where
  "lock_agrees s = (\<forall>i. (lock_holder s = Some i) = (phase_of s i = Storing))"

text \<open>Two requests, numbered 0 and 1, both inside \<open>scanner.scan()\<close>.\<close>

definition two_scanning :: server where
  "two_scanning = \<lparr>phase_of = (\<lambda>i. Absent)(0 := Scanning, 1 := Scanning), lock_holder = None\<rparr>"

text \<open>Request 0 is storing its results while request 1 has finished its scan.\<close>

definition storing_waiting :: server where
  "storing_waiting =
     \<lparr>phase_of = (\<lambda>i. Absent)(0 := Storing, 1 := Waiting), lock_holder = Some 0\<rparr>"

section \<open>A concrete market\<close>

text \<open>
  Ten hourly candles of a recently listed symbol: the low of 100 at hour 7, a high of
  \<open>peak\<close> at hour 10 and an earlier peak of 120 at hour 2.
\<close>

definition demo_klines :: "real \<Rightarrow> candle list" where
  "demo_klines peak =
     [\<lparr>time = 1, high = 105, low = 103, close = 104\<rparr>,
      \<lparr>time = 2, high = 120, low = 104, close = 118\<rparr>,
      \<lparr>time = 3, high = 110, low = 102, close = 105\<rparr>,
      \<lparr>time = 4, high = 108, low = 102, close = 104\<rparr>,
      \<lparr>time = 5, high = 107, low = 103, close = 104\<rparr>,
      \<lparr>time = 6, high = 106, low = 102, close = 103\<rparr>,
      \<lparr>time = 7, high = 104, low = 100, close = 102\<rparr>,
      \<lparr>time = 8, high = 108, low = 103, close = 107\<rparr>,
      \<lparr>time = 9, high = 109, low = 107, close = 108\<rparr>,
      \<lparr>time = 10, high = peak, low = 108, close = 110\<rparr>]"

text \<open>
  Three symbols at a last price of 110, read half an hour after the last candle opened.
  The second has a thin 24h volume, the third a higher last candle. Every time and every
  float is displayed as its format string.
\<close>

definition demo_world :: world where
  "demo_world =
     \<lparr>get_all_usdt_pairs = [''AAAUSDT'', ''BBBUSDT'', ''CCCUSDT''],
      get_ticker_24hr =
        (\<lambda>symb. Some \<lparr>lastPrice = 110,
                          quoteVolume = (if symb = ''BBBUSDT'' then 1000 else 2000000)\<rparr>),
      get_klines =
        (\<lambda>symb interval limit.
           Some (demo_klines (if symb = ''CCCUSDT'' then 115 else 112))),
      now = (\<lambda>symb i. 21 / 2),
      strftime = (\<lambda>fmt t. fmt),
      format_float = (\<lambda>spec x. spec)\<rparr>"


text \<open>
  A configuration on hourly candles: a recent lookback of four hours, a minimum rebound
  of 5 percent and a maximum pullback of 10 percent.
\<close>

definition demo_scanner :: scanner where
  "demo_scanner =
     \<lparr>lookback_hours = 4, lookback_48h_hours = 48, lookback_96h_hours = 96,
      lookback_21d_hours = 720, min_price_change = 5, min_volume_24h = 1400000,
      max_drawdown = 10, timeframe = ''1h'', timeframe_21d = ''1h'',
      filter_timeframe = ''21d'', filter_enabled = False,
      green_circle_min = 17, green_circle_max = 21\<rparr>"

text \<open>The same market with a universe of 101 symbols, all priced like the first one.\<close>

definition crowd_world :: world where
  "crowd_world = demo_world\<lparr>get_all_usdt_pairs := map (\<lambda>i. ''T'' @ show_nat i) [0..<101]\<rparr>"

text \<open>The globals when the application starts.\<close>

definition idle_state :: app_state where
  "idle_state =
     \<lparr>latest_results = [], last_scan_time = None,
      scan_progress = \<lparr>p_current = 0, p_total = 0, p_status = ''idle'', p_percentage = 0\<rparr>\<rparr>"

text \<open>The record the pipeline builds in this market for a symbol whose last candle peaks at \<open>p\<close>.\<close>

definition demo_result :: "string \<Rightarrow> real \<Rightarrow> ReboundResult" where
  "demo_result symb p =
     \<lparr>symbol = symb, current_price = 110, rebound_pct = p - 100, rebound_hours = 3,
      drawdown_from_high = (p - 110) / p * 100, drawdown_21d = 25 / 3, drawdown_flag = LOW,
      price_change_48h = p - 100, price_change_96h = p - 100, price_change_21d = p - 100,
      volume_24h = 2000000, low_price = 100, low_time = ''%H:%M'', high_price = p,
      high_time = ''%H:%M'', low_48h_price = 100, low_48h_time = ''%m/%d %H:%M'',
      high_48h_price = p, high_48h_time = ''%m/%d %H:%M'', low_96h_price = 100,
      low_96h_time = ''%m/%d %H:%M'', high_96h_price = p, high_96h_time = ''%m/%d %H:%M'',
      low_21d_price = 100, low_21d_time = ''%m/%d %H:%M'', high_21d_price = p,
      high_21d_time = ''%m/%d %H:%M'', high_21d_for_drawdown = 120,
      high_21d_time_for_drawdown = ''%m/%d %H:%M'', time_display = ''3h'', candles_count = 4,
      scan_time = ''%H:%M:%S''\<rparr>"

section \<open>Facts about the built-ins\<close>

lemma fold_min_mem: "fold (\<lambda>c best. if f c < f best then c else best) xs x \<in> set (x # xs)"
  by (induction xs arbitrary: x) auto

lemma fold_min_le_start:
  "(f :: 'a \<Rightarrow> real) (fold (\<lambda>c best. if f c < f best then c else best) xs x) \<le> f x"
proof (induction xs arbitrary: x)
  case Nil
  show ?case by simp
next
  case (Cons a xs)
  show ?case using Cons.IH [of a] Cons.IH [of x] by auto
qed

lemma fold_min_le:
  "c \<in> set xs \<Longrightarrow> (f :: 'a \<Rightarrow> real) (fold (\<lambda>c best. if f c < f best then c else best) xs x) \<le> f c"
proof (induction xs arbitrary: x)
  case Nil
  then show ?case by simp
next
  case (Cons a xs)
  show ?case
  proof (cases "c = a")
    case True
    then show ?thesis using fold_min_le_start [of f xs a] fold_min_le_start [of f xs x] by auto
  next
    case False
    with Cons.prems have "c \<in> set xs" by simp
    then show ?thesis using Cons.IH by simp
  qed
qed

lemma min_key_mem: "min_key f xs = Some m \<Longrightarrow> m \<in> set xs"
  using fold_min_mem [of f "tl xs" "hd xs"] by (cases xs) auto

lemma min_key_le: "min_key f xs = Some m \<Longrightarrow> c \<in> set xs \<Longrightarrow> f m \<le> f c"
  using fold_min_le_start [of f "tl xs" "hd xs"] fold_min_le [of c "tl xs" f "hd xs"]
  by (cases xs) auto

lemma min_key_None: "(min_key f xs = None) = (xs = [])"
  by (cases xs) auto

lemma fold_max_mem: "fold (\<lambda>c best. if f c > f best then c else best) xs x \<in> set (x # xs)"
  by (induction xs arbitrary: x) auto

lemma fold_max_ge_start:
  "f x \<le> (f :: 'a \<Rightarrow> real) (fold (\<lambda>c best. if f c > f best then c else best) xs x)"
proof (induction xs arbitrary: x)
  case Nil
  show ?case by simp
next
  case (Cons a xs)
  show ?case using Cons.IH [of a] Cons.IH [of x] by auto
qed

lemma fold_max_ge:
  "c \<in> set xs \<Longrightarrow> f c \<le> (f :: 'a \<Rightarrow> real) (fold (\<lambda>c best. if f c > f best then c else best) xs x)"
proof (induction xs arbitrary: x)
  case Nil
  then show ?case by simp
next
  case (Cons a xs)
  show ?case
  proof (cases "c = a")
    case True
    then show ?thesis using fold_max_ge_start [of f a xs] fold_max_ge_start [of f x xs] by auto
  next
    case False
    with Cons.prems have "c \<in> set xs" by simp
    then show ?thesis using Cons.IH by simp
  qed
qed

lemma max_key_mem: "max_key f xs = Some m \<Longrightarrow> m \<in> set xs"
  using fold_max_mem [of f "tl xs" "hd xs"] by (cases xs) auto

lemma max_key_ge: "max_key f xs = Some m \<Longrightarrow> c \<in> set xs \<Longrightarrow> f c \<le> f m"
  using fold_max_ge_start [of f "hd xs" "tl xs"] fold_max_ge [of c "tl xs" f "hd xs"]
  by (cases xs) auto

lemma max_key_None: "(max_key f xs = None) = (xs = [])"
  by (cases xs) auto

text \<open>
  Ties: among elements with the extremal key, \<open>min_key\<close> and \<open>max_key\<close> return the one
  that comes first in the list.
\<close>

lemma fold_min_first:
  "\<exists>ys zs. x # xs = ys @ fold (\<lambda>c best. if f c < f best then c else best) xs x # zs \<and>
     (\<forall>y \<in> set ys. (f :: 'a \<Rightarrow> real) (fold (\<lambda>c best. if f c < f best then c else best) xs x) < f y)"
proof (induction xs arbitrary: x)
  case Nil
  show ?case by (intro exI [of _ "[]"]) simp
next
  case (Cons a xs)
  let ?g = "\<lambda>c best. if f c < f best then c else best"
  show ?case
  proof (cases "f a < f x")
    case True
    then have step: "fold ?g (a # xs) x = fold ?g xs a" by simp
    from Cons.IH [of a] obtain ys zs where
      s: "a # xs = ys @ fold ?g xs a # zs" and b: "\<forall>y \<in> set ys. f (fold ?g xs a) < f y"
      by blast
    have "f (fold ?g xs a) \<le> f a" by (rule fold_min_le_start)
    with True have "f (fold ?g xs a) < f x" by simp
    with b have "\<forall>y \<in> set (x # ys). f (fold ?g xs a) < f y" by simp
    moreover have "x # a # xs = (x # ys) @ fold ?g xs a # zs"
      by (simp only: s append_Cons)
    ultimately show ?thesis unfolding step by blast
  next
    case False
    then have step: "fold ?g (a # xs) x = fold ?g xs x" by simp
    from Cons.IH [of x] obtain ys zs where
      s: "x # xs = ys @ fold ?g xs x # zs" and b: "\<forall>y \<in> set ys. f (fold ?g xs x) < f y"
      by blast
    show ?thesis
    proof (cases ys)
      case Nil
      have "x # xs = fold ?g xs x # zs" using s unfolding Nil by (simp only: append_Nil)
      then have "x = fold ?g xs x \<and> xs = zs" by (rule list.inject [THEN iffD1])
      then have e: "fold ?g xs x = x" "xs = zs" by (rule sym [OF conjunct1], rule conjunct2)
      have "x # a # xs = [] @ x # (a # zs)" using e(2) by simp
      moreover have "\<forall>y \<in> set []. f x < f y" by simp
      ultimately show ?thesis unfolding step e(1) by blast
    next
      case (Cons y ys')
      have "x # xs = y # (ys' @ fold ?g xs x # zs)"
        using s unfolding Cons by (simp only: append_Cons)
      then have "x = y \<and> xs = ys' @ fold ?g xs x # zs"
        by (rule list.inject [THEN iffD1])
      then have y: "y = x" and t: "xs = ys' @ fold ?g xs x # zs"
        by (rule sym [OF conjunct1], rule conjunct2)
      from b Cons y have "f (fold ?g xs x) < f x" by simp
      with False have "f (fold ?g xs x) < f a" by simp
      with b Cons y have "\<forall>y \<in> set (x # a # ys'). f (fold ?g xs x) < f y" by simp
      moreover have "x # a # xs = (x # a # ys') @ fold ?g xs x # zs"
        using t by (metis append_Cons)
      ultimately show ?thesis unfolding step by blast
    qed
  qed
qed

lemma min_key_first:
  assumes "min_key f xs = Some m"
  shows "\<exists>ys zs. xs = ys @ m # zs \<and> (\<forall>y \<in> set ys. f m < f y)"
  using assms fold_min_first [of "hd xs" "tl xs" f] by (cases xs) auto


lemma fold_max_first:
  "\<exists>ys zs. x # xs = ys @ fold (\<lambda>c best. if f c > f best then c else best) xs x # zs \<and>
     (\<forall>y \<in> set ys. f y < (f :: 'a \<Rightarrow> real) (fold (\<lambda>c best. if f c > f best then c else best) xs x))"
proof (induction xs arbitrary: x)
  case Nil
  show ?case by (intro exI [of _ "[]"]) simp
next
  case (Cons a xs)
  let ?g = "\<lambda>c best. if f c > f best then c else best"
  show ?case
  proof (cases "f a > f x")
    case True
    then have step: "fold ?g (a # xs) x = fold ?g xs a" by simp
    from Cons.IH [of a] obtain ys zs where
      s: "a # xs = ys @ fold ?g xs a # zs" and b: "\<forall>y \<in> set ys. f y < f (fold ?g xs a)"
      by blast
    have "f a \<le> f (fold ?g xs a)" by (rule fold_max_ge_start)
    with True have "f x < f (fold ?g xs a)" by simp
    with b have "\<forall>y \<in> set (x # ys). f y < f (fold ?g xs a)" by simp
    moreover have "x # a # xs = (x # ys) @ fold ?g xs a # zs"
      by (simp only: s append_Cons)
    ultimately show ?thesis unfolding step by blast
  next
    case False
    then have step: "fold ?g (a # xs) x = fold ?g xs x" by simp
    from Cons.IH [of x] obtain ys zs where
      s: "x # xs = ys @ fold ?g xs x # zs" and b: "\<forall>y \<in> set ys. f y < f (fold ?g xs x)"
      by blast
    show ?thesis
    proof (cases ys)
      case Nil
      have "x # xs = fold ?g xs x # zs" using s unfolding Nil by (simp only: append_Nil)
      then have "x = fold ?g xs x \<and> xs = zs" by (rule list.inject [THEN iffD1])
      then have e: "fold ?g xs x = x" "xs = zs" by (rule sym [OF conjunct1], rule conjunct2)
      have "x # a # xs = [] @ x # (a # zs)" using e(2) by simp
      moreover have "\<forall>y \<in> set []. f y < f x" by simp
      ultimately show ?thesis unfolding step e(1) by blast
    next
      case (Cons y ys')
      have "x # xs = y # (ys' @ fold ?g xs x # zs)"
        using s unfolding Cons by (simp only: append_Cons)
      then have "x = y \<and> xs = ys' @ fold ?g xs x # zs"
        by (rule list.inject [THEN iffD1])
      then have y: "y = x" and t: "xs = ys' @ fold ?g xs x # zs"
        by (rule sym [OF conjunct1], rule conjunct2)
      from b Cons y have "f x < f (fold ?g xs x)" by simp
      with False have "f a < f (fold ?g xs x)" by simp
      with b Cons y have "\<forall>y \<in> set (x # a # ys'). f y < f (fold ?g xs x)" by simp
      moreover have "x # a # xs = (x # a # ys') @ fold ?g xs x # zs"
        using t by (metis append_Cons)
      ultimately show ?thesis unfolding step by blast
    qed
  qed
qed

lemma max_key_first:
  assumes "max_key f xs = Some m"
  shows "\<exists>ys zs. xs = ys @ m # zs \<and> (\<forall>y \<in> set ys. f y < f m)"
  using assms fold_max_first [of "hd xs" "tl xs" f] by (cases xs) auto

section \<open>The concrete market, evaluated\<close>

lemma sort_demo_klines: "sort_key time (demo_klines p) = demo_klines p"
  by (simp add: demo_klines_def)

lemma demo_window_AAA:
  "analyze_time_window demo_world (21 / 2) ''AAAUSDT'' 48 ''1h'' =
     Some \<lparr>w_low_price = 100, w_low_time = ''%m/%d %H:%M'', w_high_price = 112,
           w_high_time = ''%m/%d %H:%M'', w_price_change = 12\<rparr>"
  by (simp add: analyze_time_window_def demo_world_def sort_demo_klines Let_def)
     (simp add: demo_klines_def Let_def)

section \<open>Window Analyzer: properties\<close>

lemma analyze_time_window_SomeD:
  assumes "analyze_time_window wd now_t symb lookback interval = Some r"
  obtains klines lo hi where
    "get_klines wd symb interval (kline_limit lookback (candles_per_hour interval)) = Some klines"
    "10 \<le> length klines"
    "5 \<le> length (lookback_window now_t lookback klines)"
    "min_key low (lookback_window now_t lookback klines) = Some lo"
    "max_key high (filter (\<lambda>c. time c > time lo) (lookback_window now_t lookback klines)) = Some hi"
    "0 < low lo"
    "r = \<lparr>w_low_price = low lo,
          w_low_time = strftime wd (if lookback \<ge> 24 then ''%m/%d %H:%M'' else ''%H:%M'') (time lo),
          w_high_price = high hi,
          w_high_time = strftime wd (if lookback \<ge> 24 then ''%m/%d %H:%M'' else ''%H:%M'') (time hi),
          w_price_change = ((high hi - low lo) / low lo) * 100\<rparr>"
  using assms unfolding analyze_time_window_def lookback_window_def Let_def
  by (auto split: option.splits if_splits)

text \<open>
  Claim C1. Whenever the window analyser returns a result, there are a candle \<open>lo\<close> and a
  candle \<open>hi\<close> in the lookback window such that \<open>lo\<close> has the least low of the window,
  \<open>hi\<close> lies strictly after \<open>lo\<close> in time and has the greatest high among the candles
  strictly after \<open>lo\<close>, the result reports their prices and (formatted) times, the low
  price is positive, and the percentage change is (high - low) / low * 100.
\<close>

theorem analyze_time_window_anchors:
  assumes "analyze_time_window wd now_t symb lookback interval = Some r"
  shows "\<exists>klines lo hi.
    get_klines wd symb interval (kline_limit lookback (candles_per_hour interval)) = Some klines \<and>
    lo \<in> set (lookback_window now_t lookback klines) \<and>
    (\<forall>c \<in> set (lookback_window now_t lookback klines). low lo \<le> low c) \<and>
    hi \<in> set (lookback_window now_t lookback klines) \<and>
    time lo < time hi \<and>
    (\<forall>c \<in> set (lookback_window now_t lookback klines). time lo < time c \<longrightarrow> high c \<le> high hi) \<and>
    w_low_price r = low lo \<and> w_high_price r = high hi \<and>
    w_low_time r = strftime wd (if lookback \<ge> 24 then ''%m/%d %H:%M'' else ''%H:%M'') (time lo) \<and>
    w_high_time r = strftime wd (if lookback \<ge> 24 then ''%m/%d %H:%M'' else ''%H:%M'') (time hi) \<and>
    0 < w_low_price r \<and>
    w_price_change r = (w_high_price r - w_low_price r) / w_low_price r * 100"
proof -
  from assms obtain klines lo hi where
    k: "get_klines wd symb interval (kline_limit lookback (candles_per_hour interval)) = Some klines"
    and lo: "min_key low (lookback_window now_t lookback klines) = Some lo"
    and hi: "max_key high (filter (\<lambda>c. time c > time lo) (lookback_window now_t lookback klines)) = Some hi"
    and pos: "0 < low lo"
    and r: "r = \<lparr>w_low_price = low lo,
          w_low_time = strftime wd (if lookback \<ge> 24 then ''%m/%d %H:%M'' else ''%H:%M'') (time lo),
          w_high_price = high hi,
          w_high_time = strftime wd (if lookback \<ge> 24 then ''%m/%d %H:%M'' else ''%H:%M'') (time hi),
          w_price_change = ((high hi - low lo) / low lo) * 100\<rparr>"
    by (rule analyze_time_window_SomeD)
  let ?W = "lookback_window now_t lookback klines"
  have lo_mem: "lo \<in> set ?W" using lo by (rule min_key_mem)
  have lo_min: "\<forall>c \<in> set ?W. low lo \<le> low c" using min_key_le [OF lo] by blast
  have "hi \<in> set (filter (\<lambda>c. time c > time lo) ?W)" using hi by (rule max_key_mem)
  then have hi_mem: "hi \<in> set ?W" and after: "time lo < time hi" by simp_all
  have hi_max: "\<forall>c \<in> set ?W. time lo < time c \<longrightarrow> high c \<le> high hi"
    using max_key_ge [OF hi] by simp
  show ?thesis
    using k lo_mem lo_min hi_mem after hi_max pos unfolding r
    by (intro exI [of _ klines] exI [of _ lo] exI [of _ hi]) simp
qed


theorem analyze_time_window_anchors_witness:
  "analyze_time_window demo_world (21 / 2) ''AAAUSDT'' 48 ''1h'' =
     Some \<lparr>w_low_price = 100, w_low_time = ''%m/%d %H:%M'', w_high_price = 112,
           w_high_time = ''%m/%d %H:%M'', w_price_change = 12\<rparr> \<and>
   (\<exists>klines lo hi.
      get_klines demo_world ''AAAUSDT'' ''1h'' (kline_limit 48 (candles_per_hour ''1h'')) = Some klines \<and>
      lo \<in> set (lookback_window (21 / 2) 48 klines) \<and>
      (\<forall>c \<in> set (lookback_window (21 / 2) 48 klines). low lo \<le> low c) \<and>
      hi \<in> set (lookback_window (21 / 2) 48 klines) \<and>
      time lo < time hi \<and>
      (\<forall>c \<in> set (lookback_window (21 / 2) 48 klines). time lo < time c \<longrightarrow> high c \<le> high hi) \<and>
      low lo = 100 \<and> high hi = 112)"
  using analyze_time_window_anchors [OF demo_window_AAA] demo_window_AAA by simp blast




lemma demo_window_lengths:
  "length (lookback_window (21 / 2) 3 (demo_klines p)) = 3"
  "length (lookback_window (21 / 2) 4 (demo_klines p)) = 4"
  "lookback_window (21 / 2) 48 (tl (demo_klines p)) = tl (demo_klines p)"
  by (simp_all add: lookback_window_def sort_demo_klines) (simp_all add: demo_klines_def)



section \<open>Drawdown Classifier: properties\<close>



lemma analyze_21d_with_drawdown_SomeD:
  assumes "analyze_21d_with_drawdown sc wd now_t symb price = Some r"
  obtains klines hi where
    "get_klines wd symb (timeframe_21d sc)
       (kline_limit (lookback_21d_hours sc) (candles_per_hour_21d (timeframe_21d sc))) = Some klines"
    "10 \<le> length klines"
    "5 \<le> length (lookback_window now_t (lookback_21d_hours sc) klines)"
    "max_key high (lookback_window now_t (lookback_21d_hours sc) klines) = Some hi"
    "0 < high hi"
    "r = \<lparr>d_high_21d_price = high hi,
          d_high_21d_time = strftime wd ''%m/%d %H:%M'' (time hi),
          d_drawdown_21d = ((high hi - price) / high hi) * 100,
          d_drawdown_flag = drawdown_severity (((high hi - price) / high hi) * 100)\<rparr>"
  using assms unfolding analyze_21d_with_drawdown_def lookback_window_def Let_def
  by (auto split: option.splits if_splits)

text \<open>
  Claim C4, as the code has it. The current price is the ticker's last price, which the
  classifier does not compare with the candles. When the classifier returns a result, its
  peak is the greatest high of the window and is positive, the drawdown is
  (peak - price) / peak * 100, and the drawdown is non-negative exactly when the current
  price does not exceed the peak; a price above the peak gives a negative drawdown, which
  is classified MINIMAL.
\<close>

theorem analyze_21d_with_drawdown_sign:
  assumes "analyze_21d_with_drawdown sc wd now_t symb price = Some r"
  shows "(\<exists>klines hi.
            get_klines wd symb (timeframe_21d sc)
              (kline_limit (lookback_21d_hours sc) (candles_per_hour_21d (timeframe_21d sc))) =
              Some klines \<and>
            hi \<in> set (lookback_window now_t (lookback_21d_hours sc) klines) \<and>
            (\<forall>c \<in> set (lookback_window now_t (lookback_21d_hours sc) klines). high c \<le> high hi) \<and>
            d_high_21d_price r = high hi) \<and>
         0 < d_high_21d_price r \<and>
         d_drawdown_21d r = (d_high_21d_price r - price) / d_high_21d_price r * 100 \<and>
         (0 \<le> d_drawdown_21d r) = (price \<le> d_high_21d_price r) \<and>
         (d_high_21d_price r < price \<longrightarrow> d_drawdown_flag r = MINIMAL)"
proof -
  from assms obtain klines hi where
    k: "get_klines wd symb (timeframe_21d sc)
       (kline_limit (lookback_21d_hours sc) (candles_per_hour_21d (timeframe_21d sc))) = Some klines"
    and hi: "max_key high (lookback_window now_t (lookback_21d_hours sc) klines) = Some hi"
    and pos: "0 < high hi"
    and r: "r = \<lparr>d_high_21d_price = high hi,
          d_high_21d_time = strftime wd ''%m/%d %H:%M'' (time hi),
          d_drawdown_21d = ((high hi - price) / high hi) * 100,
          d_drawdown_flag = drawdown_severity (((high hi - price) / high hi) * 100)\<rparr>"
    by (rule analyze_21d_with_drawdown_SomeD)
  let ?W = "lookback_window now_t (lookback_21d_hours sc) klines"
  have mem: "hi \<in> set ?W" using hi by (rule max_key_mem)
  have mx: "\<forall>c \<in> set ?W. high c \<le> high hi" using max_key_ge [OF hi] by blast
  have peak: "\<exists>klines hi.
            get_klines wd symb (timeframe_21d sc)
              (kline_limit (lookback_21d_hours sc) (candles_per_hour_21d (timeframe_21d sc))) =
              Some klines \<and>
            hi \<in> set (lookback_window now_t (lookback_21d_hours sc) klines) \<and>
            (\<forall>c \<in> set (lookback_window now_t (lookback_21d_hours sc) klines). high c \<le> high hi) \<and>
            d_high_21d_price r = high hi"
    using k mem mx unfolding r by (intro exI [of _ klines] exI [of _ hi]) simp
  have sign: "(0 \<le> (high hi - price) / high hi * 100) = (price \<le> high hi)"
    using pos by (simp add: zero_le_divide_iff)
  have neg: "high hi < price \<Longrightarrow> (high hi - price) / high hi * 100 < 5"
  proof -
    assume above: "high hi < price"
    define a where "a = (high hi - price) / high hi"
    have "a < 0" unfolding a_def using above pos by (simp add: divide_less_0_iff)
    then have "a * 100 < 5" by linarith
    then show ?thesis unfolding a_def .
  qed
  show ?thesis
  proof (intro conjI impI)
    show "\<exists>klines hi.
            get_klines wd symb (timeframe_21d sc)
              (kline_limit (lookback_21d_hours sc) (candles_per_hour_21d (timeframe_21d sc))) =
              Some klines \<and>
            hi \<in> set (lookback_window now_t (lookback_21d_hours sc) klines) \<and>
            (\<forall>c \<in> set (lookback_window now_t (lookback_21d_hours sc) klines). high c \<le> high hi) \<and>
            d_high_21d_price r = high hi"
      by (rule peak)
    show "0 < d_high_21d_price r" using pos unfolding r by simp
    show "d_drawdown_21d r = (d_high_21d_price r - price) / d_high_21d_price r * 100"
      unfolding r by simp
    show "(0 \<le> d_drawdown_21d r) = (price \<le> d_high_21d_price r)"
      using sign unfolding r by simp
    assume "d_high_21d_price r < price"
    then have "high hi < price" unfolding r by simp
    then have "(high hi - price) / high hi * 100 < 5" by (rule neg)
    then show "d_drawdown_flag r = MINIMAL" unfolding r by (simp add: drawdown_severity_def)
  qed
qed

lemma demo_drawdown_above_peak:
  "analyze_21d_with_drawdown demo_scanner demo_world (21 / 2) ''AAAUSDT'' 125 =
     Some \<lparr>d_high_21d_price = 120, d_high_21d_time = ''%m/%d %H:%M'',
           d_drawdown_21d = - (25 / 6), d_drawdown_flag = MINIMAL\<rparr>"
  by (simp add: analyze_21d_with_drawdown_def demo_world_def demo_scanner_def sort_demo_klines
        Let_def)
     (simp add: demo_klines_def Let_def drawdown_severity_def kline_limit_def)

theorem analyze_21d_with_drawdown_sign_witness:
  "analyze_21d_with_drawdown demo_scanner demo_world (21 / 2) ''AAAUSDT'' 125 =
     Some \<lparr>d_high_21d_price = 120, d_high_21d_time = ''%m/%d %H:%M'',
           d_drawdown_21d = - (25 / 6), d_drawdown_flag = MINIMAL\<rparr> \<and>
   (\<exists>klines hi.
       get_klines demo_world ''AAAUSDT'' (timeframe_21d demo_scanner)
         (kline_limit (lookback_21d_hours demo_scanner)
            (candles_per_hour_21d (timeframe_21d demo_scanner))) = Some klines \<and>
       hi \<in> set (lookback_window (21 / 2) (lookback_21d_hours demo_scanner) klines) \<and>
       (\<forall>c \<in> set (lookback_window (21 / 2) (lookback_21d_hours demo_scanner) klines).
          high c \<le> high hi) \<and>
       high hi = 120) \<and>
   ((0::real) \<le> - (25 / 6)) = ((125::real) \<le> 120)"
  using analyze_21d_with_drawdown_sign [OF demo_drawdown_above_peak] demo_drawdown_above_peak
  by simp

text \<open>
  With a last price of 125 above the window's peak of 120 the classifier returns a
  result whose drawdown is negative.
\<close>

theorem analyze_21d_with_drawdown_negative_counterexample:
  "\<exists>r. analyze_21d_with_drawdown demo_scanner demo_world (21 / 2) ''AAAUSDT'' 125 = Some r \<and>
       d_drawdown_21d r < 0"
  by (simp add: demo_drawdown_above_peak)

section \<open>Symbol Pipeline: properties\<close>

lemma analyze_pair_stages:
  assumes "get_ticker_24hr wd symb = Some tk"
    and "analyze_time_window wd (now wd symb 0) symb (lookback_48h_hours sc) (timeframe sc) = Some a48"
    and "analyze_time_window wd (now wd symb 1) symb (lookback_96h_hours sc) (timeframe sc) = Some a96"
    and "analyze_time_window wd (now wd symb 2) symb (lookback_21d_hours sc) (timeframe_21d sc) = Some a21"
    and "analyze_21d_with_drawdown sc wd (now wd symb 3) symb (lastPrice tk) = Some dd"
    and "get_klines wd symb (timeframe sc) (candle_limit_recent sc) = Some klines"
    and "lookback_window (now wd symb 4) (lookback_hours sc) klines = recent"
    and "min_key fst (map (\<lambda>c. (low c, time c)) recent) = Some lo"
    and "max_key high (filter (\<lambda>c. time c > snd lo) recent) = Some hi"
  shows "analyze_pair sc wd symb =
     (if quoteVolume tk < min_volume_24h sc \<or> length klines < 4 \<or> length recent < 4 \<or>
         lookback_hours sc < time hi - snd lo \<or> fst lo \<le> 0 \<or>
         ((high hi - fst lo) / fst lo) * 100 < min_price_change sc \<or> high hi \<le> 0 \<or>
         max_drawdown sc < ((high hi - lastPrice tk) / high hi) * 100
      then None
      else Some (assemble wd symb tk a48 a96 a21 dd recent lo hi))"
proof -
  have ne: "filter (\<lambda>c. time c > snd lo) recent \<noteq> []"
    using assms(9) max_key_None [of high "filter (\<lambda>c. time c > snd lo) recent"] by auto
  have w: "filter (\<lambda>c. now wd symb 4 - lookback_hours sc \<le> time c) (sort_key time klines) = recent"
    using assms(7) by (simp add: lookback_window_def)
  show ?thesis
    unfolding analyze_pair_def Let_def assemble_def
    using assms(1-6,8,9) ne
    by (simp add: w)
qed

lemma analyze_pair_SomeD:
  assumes "analyze_pair sc wd symb = Some r"
  obtains tk a48 a96 a21 dd klines lo hi where
    "get_ticker_24hr wd symb = Some tk"
    "analyze_time_window wd (now wd symb 0) symb (lookback_48h_hours sc) (timeframe sc) = Some a48"
    "analyze_time_window wd (now wd symb 1) symb (lookback_96h_hours sc) (timeframe sc) = Some a96"
    "analyze_time_window wd (now wd symb 2) symb (lookback_21d_hours sc) (timeframe_21d sc) = Some a21"
    "analyze_21d_with_drawdown sc wd (now wd symb 3) symb (lastPrice tk) = Some dd"
    "get_klines wd symb (timeframe sc) (candle_limit_recent sc) = Some klines"
    "min_key fst (map (\<lambda>c. (low c, time c))
       (lookback_window (now wd symb 4) (lookback_hours sc) klines)) = Some lo"
    "max_key high (filter (\<lambda>c. time c > snd lo)
       (lookback_window (now wd symb 4) (lookback_hours sc) klines)) = Some hi"
  using assms unfolding analyze_pair_def Let_def lookback_window_def
  by (auto split: option.splits if_splits)




lemma analyze_pair_result:
  assumes "analyze_pair sc wd symb = Some r"
  obtains tk a48 a96 a21 dd klines lo hi where
    "get_ticker_24hr wd symb = Some tk"
    "analyze_time_window wd (now wd symb 0) symb (lookback_48h_hours sc) (timeframe sc) = Some a48"
    "analyze_time_window wd (now wd symb 1) symb (lookback_96h_hours sc) (timeframe sc) = Some a96"
    "analyze_time_window wd (now wd symb 2) symb (lookback_21d_hours sc) (timeframe_21d sc) = Some a21"
    "analyze_21d_with_drawdown sc wd (now wd symb 3) symb (lastPrice tk) = Some dd"
    "get_klines wd symb (timeframe sc) (candle_limit_recent sc) = Some klines"
    "min_key fst (map (\<lambda>c. (low c, time c))
       (lookback_window (now wd symb 4) (lookback_hours sc) klines)) = Some lo"
    "max_key high (filter (\<lambda>c. time c > snd lo)
       (lookback_window (now wd symb 4) (lookback_hours sc) klines)) = Some hi"
    "r = assemble wd symb tk a48 a96 a21 dd
           (lookback_window (now wd symb 4) (lookback_hours sc) klines) lo hi"
    "\<not> quoteVolume tk < min_volume_24h sc"
    "4 \<le> length klines"
    "4 \<le> length (lookback_window (now wd symb 4) (lookback_hours sc) klines)"
    "time hi - snd lo \<le> lookback_hours sc"
    "0 < fst lo" "0 < high hi"
    "\<not> ((high hi - fst lo) / fst lo) * 100 < min_price_change sc"
    "\<not> max_drawdown sc < ((high hi - lastPrice tk) / high hi) * 100"
proof -
  from assms obtain tk a48 a96 a21 dd klines lo hi where s:
    "get_ticker_24hr wd symb = Some tk"
    "analyze_time_window wd (now wd symb 0) symb (lookback_48h_hours sc) (timeframe sc) = Some a48"
    "analyze_time_window wd (now wd symb 1) symb (lookback_96h_hours sc) (timeframe sc) = Some a96"
    "analyze_time_window wd (now wd symb 2) symb (lookback_21d_hours sc) (timeframe_21d sc) = Some a21"
    "analyze_21d_with_drawdown sc wd (now wd symb 3) symb (lastPrice tk) = Some dd"
    "get_klines wd symb (timeframe sc) (candle_limit_recent sc) = Some klines"
    "min_key fst (map (\<lambda>c. (low c, time c))
       (lookback_window (now wd symb 4) (lookback_hours sc) klines)) = Some lo"
    "max_key high (filter (\<lambda>c. time c > snd lo)
       (lookback_window (now wd symb 4) (lookback_hours sc) klines)) = Some hi"
    by (rule analyze_pair_SomeD)
  note eq = analyze_pair_stages [OF s(1-6) refl s(7,8)]
  from assms have c: "\<not> (quoteVolume tk < min_volume_24h sc \<or> length klines < 4 \<or>
         length (lookback_window (now wd symb 4) (lookback_hours sc) klines) < 4 \<or>
         lookback_hours sc < time hi - snd lo \<or> fst lo \<le> 0 \<or>
         ((high hi - fst lo) / fst lo) * 100 < min_price_change sc \<or> high hi \<le> 0 \<or>
         max_drawdown sc < ((high hi - lastPrice tk) / high hi) * 100)"
    unfolding eq by (simp split: if_splits)
  with assms have r: "r = assemble wd symb tk a48 a96 a21 dd
           (lookback_window (now wd symb 4) (lookback_hours sc) klines) lo hi"
    unfolding eq by (simp split: if_splits)
  from c have c': "\<not> quoteVolume tk < min_volume_24h sc"
    "4 \<le> length klines"
    "4 \<le> length (lookback_window (now wd symb 4) (lookback_hours sc) klines)"
    "time hi - snd lo \<le> lookback_hours sc"
    "0 < fst lo" "0 < high hi"
    "\<not> ((high hi - fst lo) / fst lo) * 100 < min_price_change sc"
    "\<not> max_drawdown sc < ((high hi - lastPrice tk) / high hi) * 100"
    by simp_all
  show thesis using that [OF s r c'] .
qed

lemma analyze_pair_symbol: "analyze_pair sc wd symb = Some r \<Longrightarrow> symbol r = symb"
  by (erule analyze_pair_result) (simp add: assemble_def)


lemma demo_window_eval:
  assumes "get_klines wd symb ''1h'' (kline_limit lb (candles_per_hour ''1h'')) = Some (demo_klines p)"
    and "109 < p" and "24 \<le> lb"
  shows "analyze_time_window wd (21 / 2) symb lb ''1h'' =
     Some \<lparr>w_low_price = 100, w_low_time = strftime wd ''%m/%d %H:%M'' 7, w_high_price = p,
           w_high_time = strftime wd ''%m/%d %H:%M'' 10, w_price_change = (p - 100) / 100 * 100\<rparr>"
  using assms
  by (simp add: analyze_time_window_def sort_demo_klines Let_def)
     (simp add: demo_klines_def Let_def)

lemma demo_drawdown_eval:
  assumes "get_klines wd symb ''1h'' (kline_limit 720 (candles_per_hour_21d ''1h'')) = Some (demo_klines p)"
    and "p < 120"
  shows "analyze_21d_with_drawdown demo_scanner wd (21 / 2) symb 110 =
     Some \<lparr>d_high_21d_price = 120, d_high_21d_time = strftime wd ''%m/%d %H:%M'' 2,
           d_drawdown_21d = 25 / 3, d_drawdown_flag = LOW\<rparr>"
  using assms
  by (simp add: analyze_21d_with_drawdown_def demo_scanner_def sort_demo_klines Let_def)
     (simp add: demo_klines_def Let_def drawdown_severity_def)


lemma demo_world_fields:
  "get_ticker_24hr demo_world symb =
     Some \<lparr>lastPrice = 110, quoteVolume = (if symb = ''BBBUSDT'' then 1000 else 2000000)\<rparr>"
  "get_klines demo_world symb interval limit =
     Some (demo_klines (if symb = ''CCCUSDT'' then 115 else 112))"
  "now demo_world symb i = 21 / 2"
  "strftime demo_world fmt t = fmt"
  "format_float demo_world spec x = spec"
  by (simp_all add: demo_world_def)

lemma demo_scanner_fields:
  "lookback_hours demo_scanner = 4" "lookback_48h_hours demo_scanner = 48"
  "lookback_96h_hours demo_scanner = 96" "lookback_21d_hours demo_scanner = 720"
  "min_price_change demo_scanner = 5" "min_volume_24h demo_scanner = 1400000"
  "max_drawdown demo_scanner = 10" "timeframe demo_scanner = ''1h''"
  "timeframe_21d demo_scanner = ''1h''" "filter_timeframe demo_scanner = ''21d''"
  "filter_enabled demo_scanner = False"
  by (simp_all add: demo_scanner_def)


lemma demo_recent_window:
  "lookback_window (21 / 2) 4 (demo_klines p) =
     [\<lparr>time = 7, high = 104, low = 100, close = 102\<rparr>,
      \<lparr>time = 8, high = 108, low = 103, close = 107\<rparr>,
      \<lparr>time = 9, high = 109, low = 107, close = 108\<rparr>,
      \<lparr>time = 10, high = p, low = 108, close = 110\<rparr>]"
  by (simp add: lookback_window_def sort_demo_klines) (simp add: demo_klines_def)

lemma demo_pair_eval_any:
  assumes "symb \<noteq> ''BBBUSDT''" and "p = (if symb = ''CCCUSDT'' then 115 else 112)"
    and same: "get_ticker_24hr wd = get_ticker_24hr demo_world" "get_klines wd = get_klines demo_world"
      "now wd = now demo_world" "strftime wd = strftime demo_world"
  shows "analyze_pair demo_scanner wd symb = Some (demo_result symb p)"
proof -
  have wf: "get_ticker_24hr wd symb =
       Some \<lparr>lastPrice = 110, quoteVolume = (if symb = ''BBBUSDT'' then 1000 else 2000000)\<rparr>"
    "get_klines wd symb interval limit =
       Some (demo_klines (if symb = ''CCCUSDT'' then 115 else 112))"
    "now wd symb i = 21 / 2"
    "strftime wd fmt t = fmt" for interval limit i fmt t
    by (simp_all add: same demo_world_fields)
  let ?tk = "\<lparr>lastPrice = 110, quoteVolume = 2000000\<rparr>"
  let ?a = "\<lparr>w_low_price = 100, w_low_time = ''%m/%d %H:%M'', w_high_price = p,
           w_high_time = ''%m/%d %H:%M'', w_price_change = p - 100\<rparr>"
  let ?dd = "\<lparr>d_high_21d_price = 120, d_high_21d_time = ''%m/%d %H:%M'',
           d_drawdown_21d = 25 / 3, d_drawdown_flag = LOW\<rparr>"
  let ?hi = "\<lparr>time = 10, high = p, low = 108, close = 110\<rparr>"
  let ?recent = "lookback_window (21 / 2) 4 (demo_klines p)"
  have p: "109 < p" "p < 120" "110 \<le> p" using assms(2) by (simp_all split: if_splits)
  have tk: "get_ticker_24hr wd symb = Some ?tk"
    using assms(1) by (simp add: wf)
  have w: "analyze_time_window wd (now wd symb i) symb lb ''1h'' = Some ?a"
    if "24 \<le> lb" for lb i
    using demo_window_eval [of wd symb lb p] p that assms(2)
    by (simp add: wf)
  have d: "analyze_21d_with_drawdown demo_scanner wd (now wd symb 3) symb
             (lastPrice ?tk) = Some ?dd"
    using demo_drawdown_eval [of wd symb p] p assms(2)
    by (simp add: wf)
  have k: "get_klines wd symb (timeframe demo_scanner) (candle_limit_recent demo_scanner) =
             Some (demo_klines p)"
    using assms(2) by (simp add: wf)
  have r: "lookback_window (now wd symb 4) (lookback_hours demo_scanner) (demo_klines p) =
             ?recent"
    by (simp add: wf demo_scanner_fields)
  have lo: "min_key fst (map (\<lambda>c. (low c, time c)) ?recent) = Some (100, 7)"
    by (simp add: demo_recent_window)
  have hi: "max_key high (filter (\<lambda>c. time c > snd (100 :: real, 7 :: real)) ?recent) = Some ?hi"
    using p by (simp add: demo_recent_window)
  have t: "format_time_display 3 = ''3h''"
    by code_simp
  have dd: "(p - 110) / p * 100 \<le> 10"
    using p by (simp add: field_simps)
  have a48: "analyze_time_window wd (now wd symb 0) symb
               (lookback_48h_hours demo_scanner) (timeframe demo_scanner) = Some ?a"
    using w [of 48 0] by (simp add: demo_scanner_fields)
  have a96: "analyze_time_window wd (now wd symb 1) symb
               (lookback_96h_hours demo_scanner) (timeframe demo_scanner) = Some ?a"
    using w [of 96 1] by (simp add: demo_scanner_fields)
  have a21: "analyze_time_window wd (now wd symb 2) symb
               (lookback_21d_hours demo_scanner) (timeframe_21d demo_scanner) = Some ?a"
    using w [of 720 2] by (simp add: demo_scanner_fields)
  show ?thesis
    unfolding analyze_pair_stages [OF tk a48 a96 a21 d k r lo hi]
    using p dd t
    by (simp add: demo_scanner_fields demo_recent_window assemble_def demo_result_def
          wf)
       (simp add: demo_klines_def)
qed

lemma demo_pair_eval:
  assumes "symb \<noteq> ''BBBUSDT''" and "p = (if symb = ''CCCUSDT'' then 115 else 112)"
  shows "analyze_pair demo_scanner demo_world symb = Some (demo_result symb p)"
  using assms by (rule demo_pair_eval_any) simp_all




text \<open>
  Claim C6, as the code has it. \<open>analyze_pair\<close> does not call the window analyser for the
  recent horizon: it repeats the steps inline and asks for four candles, not five. For
  every symbol whose recent lookback window retains fewer than four candles,
  \<open>analyze_pair\<close> returns nothing.
\<close>

theorem analyze_pair_recent_minimum:
  assumes "get_klines wd symb (timeframe sc) (candle_limit_recent sc) = Some klines"
    and "length (lookback_window (now wd symb 4) (lookback_hours sc) klines) < 4"
  shows "analyze_pair sc wd symb = None"
  using assms unfolding analyze_pair_def Let_def lookback_window_def
  by (simp split: option.splits)

theorem analyze_pair_recent_minimum_witness:
  "get_klines demo_world ''AAAUSDT'' (timeframe (demo_scanner\<lparr>lookback_hours := 3\<rparr>))
     (candle_limit_recent (demo_scanner\<lparr>lookback_hours := 3\<rparr>)) = Some (demo_klines 112) \<and>
   length (lookback_window (now demo_world ''AAAUSDT'' 4)
     (lookback_hours (demo_scanner\<lparr>lookback_hours := 3\<rparr>)) (demo_klines 112)) = 3 \<and>
   analyze_pair (demo_scanner\<lparr>lookback_hours := 3\<rparr>) demo_world ''AAAUSDT'' = None"
proof -
  have k: "get_klines demo_world ''AAAUSDT'' (timeframe (demo_scanner\<lparr>lookback_hours := 3\<rparr>))
     (candle_limit_recent (demo_scanner\<lparr>lookback_hours := 3\<rparr>)) = Some (demo_klines 112)"
    by (simp add: demo_world_fields)
  have l: "length (lookback_window (now demo_world ''AAAUSDT'' 4)
     (lookback_hours (demo_scanner\<lparr>lookback_hours := 3\<rparr>)) (demo_klines 112)) = 3"
    by (simp add: demo_world_fields demo_window_lengths)
  have l4: "length (lookback_window (now demo_world ''AAAUSDT'' 4)
     (lookback_hours (demo_scanner\<lparr>lookback_hours := 3\<rparr>)) (demo_klines 112)) < 4"
    using l by linarith
  have "analyze_pair (demo_scanner\<lparr>lookback_hours := 3\<rparr>) demo_world ''AAAUSDT'' = None"
    using k l4 by (rule analyze_pair_recent_minimum)
  with k l show ?thesis by (intro conjI)
qed

text \<open>
  With a recent lookback of four hours, read half an hour after the last hourly candle
  opened, the recent window retains exactly four candles, and the symbol is accepted.
\<close>

theorem analyze_pair_four_candles_counterexample:
  "get_klines demo_world ''AAAUSDT'' (timeframe demo_scanner) (candle_limit_recent demo_scanner) =
     Some (demo_klines 112) \<and>
   length (lookback_window (now demo_world ''AAAUSDT'' 4) (lookback_hours demo_scanner)
     (demo_klines 112)) = 4 \<and>
   analyze_pair demo_scanner demo_world ''AAAUSDT'' = Some (demo_result ''AAAUSDT'' 112)"
proof -
  have "analyze_pair demo_scanner demo_world ''AAAUSDT'' = Some (demo_result ''AAAUSDT'' 112)"
    by (rule demo_pair_eval) simp_all
  then show ?thesis
    by (simp add: demo_world_fields demo_scanner_fields demo_window_lengths)
qed

section \<open>Scan Coordinator: properties\<close>




lemma scan_loop_results:
  "fst (scan_loop sc wd n xs rs p pub) = rs @ List.map_filter (analyze_pair sc wd) xs"
proof (induction xs arbitrary: rs p pub)
  case Nil
  show ?case by (simp add: List.map_filter_simps)
next
  case (Cons x xs)
  show ?case
    by (cases "analyze_pair sc wd x") (simp_all add: Let_def Cons.IH List.map_filter_simps)
qed

lemma scan_results:
  assumes "mset completed = mset (get_all_usdt_pairs wd)"
  shows "fst (scan sc wd completed) =
     sort_reverse (get_filter_price_change sc) (List.map_filter (analyze_pair sc wd) completed)"
proof (cases "get_all_usdt_pairs wd = []")
  case True
  with assms have "completed = []" by simp
  with True show ?thesis
    by (simp add: scan_def sort_reverse_def List.map_filter_simps)
next
  case False
  then show ?thesis
    using scan_loop_results [of sc wd "int (length (get_all_usdt_pairs wd))" completed "[]" 0]
    by (simp add: scan_def Let_def split_beta)
qed

lemma map_symbol_collected:
  "map symbol (List.map_filter (analyze_pair sc wd) xs) =
     filter (\<lambda>s. analyze_pair sc wd s \<noteq> None) xs"
proof (induction xs)
  case Nil
  show ?case by (simp add: List.map_filter_simps)
next
  case (Cons x xs)
  show ?case
  proof (cases "analyze_pair sc wd x")
    case None
    then show ?thesis using Cons.IH by (simp add: List.map_filter_simps)
  next
    case (Some r)
    then have "symbol r = x" by (rule analyze_pair_symbol)
    with Some show ?thesis using Cons.IH by (simp add: List.map_filter_simps)
  qed
qed











lemma crowd_world_fields:
  "get_all_usdt_pairs crowd_world = map (\<lambda>i. ''T'' @ show_nat i) [0..<101]"
  "length (get_all_usdt_pairs crowd_world) = 101"
  "get_all_usdt_pairs crowd_world \<noteq> []"
  "get_ticker_24hr crowd_world = get_ticker_24hr demo_world"
  "get_klines crowd_world = get_klines demo_world"
  "now crowd_world = now demo_world"
  "strftime crowd_world = strftime demo_world"
proof -
  show p: "get_all_usdt_pairs crowd_world = map (\<lambda>i. ''T'' @ show_nat i) [0..<101]"
    by (simp add: crowd_world_def)
  show l: "length (get_all_usdt_pairs crowd_world) = 101"
    unfolding p by simp
  show "get_all_usdt_pairs crowd_world \<noteq> []"
    using l by auto
qed (simp_all add: crowd_world_def)




section \<open>The route: properties\<close>

lemma scan_result_count:
  assumes "mset completed = mset (get_all_usdt_pairs wd)"
  shows "length (fst (scan sc wd completed)) =
     length (filter (\<lambda>s. analyze_pair sc wd s \<noteq> None) (get_all_usdt_pairs wd))"
proof -
  let ?ok = "\<lambda>s. analyze_pair sc wd s \<noteq> None"
  have "length (fst (scan sc wd completed)) =
        length (map symbol (List.map_filter (analyze_pair sc wd) completed))"
    unfolding scan_results [OF assms] by (simp add: sort_reverse_def)
  also have "\<dots> = size (mset (filter ?ok completed))"
    by (simp only: map_symbol_collected size_mset)
  also have "\<dots> = size (mset (filter ?ok (get_all_usdt_pairs wd)))"
    using assms by simp
  finally show ?thesis by (simp only: size_mset)
qed

text \<open>
  Claim C10. When every submitted symbol completes, the response of the route lists the
  first 100 records of the sorted result (each as a row of the record and its formatted
  fields) and no more, while its count is the number of qualifying symbols, which is also
  the length of the stored result list; with more than 100 qualifying symbols the list
  has exactly 100 rows and the count is strictly greater than that.
\<close>

theorem scan_route_response_limit:
  assumes "mset completed = mset (get_all_usdt_pairs wd)"
  shows "r_results (snd (snd (scan_route sc wd completed finished st))) =
           map (result_row wd) (take 100 (fst (scan sc wd completed))) \<and>
         latest_results (fst (snd (scan_route sc wd completed finished st))) =
           fst (scan sc wd completed) \<and>
         length (r_results (snd (snd (scan_route sc wd completed finished st)))) \<le> 100 \<and>
         r_count (snd (snd (scan_route sc wd completed finished st))) =
           int (length (filter (\<lambda>s. analyze_pair sc wd s \<noteq> None) (get_all_usdt_pairs wd))) \<and>
         (100 < length (filter (\<lambda>s. analyze_pair sc wd s \<noteq> None) (get_all_usdt_pairs wd)) \<longrightarrow>
            length (r_results (snd (snd (scan_route sc wd completed finished st)))) = 100 \<and>
            int (length (r_results (snd (snd (scan_route sc wd completed finished st))))) <
              r_count (snd (snd (scan_route sc wd completed finished st))))"
proof -
  note c = scan_result_count [OF assms, of sc]
  have r: "r_results (snd (snd (scan_route sc wd completed finished st))) =
           map (result_row wd) (take 100 (fst (scan sc wd completed)))"
    and l: "latest_results (fst (snd (scan_route sc wd completed finished st))) =
           fst (scan sc wd completed)"
    and n: "r_count (snd (snd (scan_route sc wd completed finished st))) =
           int (length (fst (scan sc wd completed)))"
    by (simp_all add: scan_route_def Let_def split_beta)
  show ?thesis
    unfolding r l n using c by simp
qed

lemma crowd_all_accepted:
  "filter (\<lambda>s. analyze_pair demo_scanner crowd_world s \<noteq> None) (get_all_usdt_pairs crowd_world) =
   get_all_usdt_pairs crowd_world"
proof (rule filter_True, rule ballI)
  fix s assume "s \<in> set (get_all_usdt_pairs crowd_world)"
  then obtain i where s: "s = ''T'' @ show_nat i"
    unfolding crowd_world_fields(1) by auto
  have "analyze_pair demo_scanner crowd_world s = Some (demo_result s 112)"
    by (rule demo_pair_eval_any) (simp_all add: s crowd_world_fields)
  then show "analyze_pair demo_scanner crowd_world s \<noteq> None" by simp
qed

theorem scan_route_response_limit_witness:
  "length (filter (\<lambda>s. analyze_pair demo_scanner crowd_world s \<noteq> None)
     (get_all_usdt_pairs crowd_world)) = 101 \<and>
   length (r_results (snd (snd (scan_route demo_scanner crowd_world
     (get_all_usdt_pairs crowd_world) 11 idle_state)))) = 100 \<and>
   r_count (snd (snd (scan_route demo_scanner crowd_world
     (get_all_usdt_pairs crowd_world) 11 idle_state))) = 101"
proof -
  have k: "length (filter (\<lambda>s. analyze_pair demo_scanner crowd_world s \<noteq> None)
     (get_all_usdt_pairs crowd_world)) = 101"
    unfolding crowd_all_accepted by (rule crowd_world_fields(2))
  note t = scan_route_response_limit [OF refl, of demo_scanner crowd_world 11 idle_state]
  have c: "r_count (snd (snd (scan_route demo_scanner crowd_world
     (get_all_usdt_pairs crowd_world) 11 idle_state))) = 101"
    using t k by simp
  have "100 < length (filter (\<lambda>s. analyze_pair demo_scanner crowd_world s \<noteq> None)
     (get_all_usdt_pairs crowd_world))"
    unfolding k by simp
  with t have "length (r_results (snd (snd (scan_route demo_scanner crowd_world
     (get_all_usdt_pairs crowd_world) 11 idle_state)))) = 100"
    by blast
  with k c show ?thesis by (intro conjI)
qed

section \<open>Concurrent requests: properties\<close>

lemma lock_agrees_start: "lock_agrees server_start"
  by (simp add: lock_agrees_def server_start_def)

lemma lock_agrees_step: "route_step s t \<Longrightarrow> lock_agrees s \<Longrightarrow> lock_agrees t"
proof (induction rule: route_step.induct)
  case (arrive s i)
  then show ?case by (auto simp: lock_agrees_def)
next
  case (scanned s i)
  then show ?case by (auto simp: lock_agrees_def)
next
  case (enter s i)
  then show ?case by (auto simp: lock_agrees_def)
next
  case (leave s i)
  from leave have "lock_holder s = Some i" by (simp add: lock_agrees_def)
  with leave(2) have "\<forall>k. (phase_of s k = Storing) = (k = i)"
    by (auto simp: lock_agrees_def)
  then show ?case by (simp add: lock_agrees_def)
next
  case (respond s i)
  then show ?case by (auto simp: lock_agrees_def)
qed

lemma served_lock_agrees: "served s \<Longrightarrow> lock_agrees s"
  by (induction rule: served.induct) (auto intro: lock_agrees_start lock_agrees_step)

lemma advance:
  assumes "lock_agrees s" and "phase_of s i \<noteq> Responded"
  shows "\<exists>t. route_step\<^sup>*\<^sup>* s t \<and> lock_agrees t \<and>
             steps_left (phase_of t i) < steps_left (phase_of s i)"
proof (cases "phase_of s i")
  case Absent
  then have "route_step s (s\<lparr>phase_of := (phase_of s)(i := Scanning)\<rparr>)"
    by (rule route_step.arrive)
  then show ?thesis
    using Absent assms(1) lock_agrees_step by (intro exI [of _ "s\<lparr>phase_of := (phase_of s)(i := Scanning)\<rparr>"]) auto
next
  case Scanning
  then have "route_step s (s\<lparr>phase_of := (phase_of s)(i := Waiting)\<rparr>)"
    by (rule route_step.scanned)
  then show ?thesis
    using Scanning assms(1) lock_agrees_step by (intro exI [of _ "s\<lparr>phase_of := (phase_of s)(i := Waiting)\<rparr>"]) auto
next
  case Waiting
  show ?thesis
  proof (cases "lock_holder s")
    case None
    with Waiting have "route_step s (s\<lparr>phase_of := (phase_of s)(i := Storing), lock_holder := Some i\<rparr>)"
      by (rule route_step.enter)
    then show ?thesis
      using Waiting assms(1) lock_agrees_step
      by (intro exI [of _ "s\<lparr>phase_of := (phase_of s)(i := Storing), lock_holder := Some i\<rparr>"]) auto
  next
    case (Some j)
    with assms(1) have j: "phase_of s j = Storing" unfolding lock_agrees_def by blast
    with Waiting have ij: "i \<noteq> j" by auto
    let ?u = "s\<lparr>phase_of := (phase_of s)(j := Finishing), lock_holder := None\<rparr>"
    let ?t = "?u\<lparr>phase_of := (phase_of ?u)(i := Storing), lock_holder := Some i\<rparr>"
    from j have 1: "route_step s ?u" by (rule route_step.leave)
    have "phase_of ?u i = Waiting" "lock_holder ?u = None" using Waiting ij by simp_all
    then have 2: "route_step ?u ?t" by (rule route_step.enter)
    from 1 2 have "route_step\<^sup>*\<^sup>* s ?t" by auto
    moreover have "lock_agrees ?t" using 1 2 assms(1) lock_agrees_step by blast
    moreover have "steps_left (phase_of ?t i) < steps_left (phase_of s i)" using Waiting by simp
    ultimately show ?thesis by blast
  qed
next
  case Storing
  then have "route_step s (s\<lparr>phase_of := (phase_of s)(i := Finishing), lock_holder := None\<rparr>)"
    by (rule route_step.leave)
  then show ?thesis
    using Storing assms(1) lock_agrees_step
    by (intro exI [of _ "s\<lparr>phase_of := (phase_of s)(i := Finishing), lock_holder := None\<rparr>"]) auto
next
  case Finishing
  then have "route_step s (s\<lparr>phase_of := (phase_of s)(i := Responded)\<rparr>)"
    by (rule route_step.respond)
  then show ?thesis
    using Finishing assms(1) lock_agrees_step by (intro exI [of _ "s\<lparr>phase_of := (phase_of s)(i := Responded)\<rparr>"]) auto
next
  case Responded
  with assms(2) show ?thesis by simp
qed

lemma runs_to_response:
  "lock_agrees s \<Longrightarrow> \<exists>t. route_step\<^sup>*\<^sup>* s t \<and> phase_of t i = Responded"
proof (induction "steps_left (phase_of s i)" arbitrary: s rule: less_induct)
  case less
  show ?case
  proof (cases "phase_of s i = Responded")
    case True
    then show ?thesis by blast
  next
    case False
    with less.prems obtain u where u: "route_step\<^sup>*\<^sup>* s u" "lock_agrees u"
      "steps_left (phase_of u i) < steps_left (phase_of s i)"
      using advance by blast
    from less.hyps [OF u(3) u(2)] obtain t where "route_step\<^sup>*\<^sup>* u t" "phase_of t i = Responded"
      by blast
    with u(1) show ?thesis by (meson rtranclp_trans)
  qed
qed

text \<open>
  Claim C9, as the code has it. \<open>scan_lock\<close> guards only the storing of a finished scan's
  results. In every state the server can be in: at most one request is storing; a request
  that has not yet arrived can start its scan at once, whatever the other requests are
  doing (none is refused or made to wait before scanning); and every request can run on
  to its response (none is dropped).
\<close>

theorem scan_lock_guards_store_only:
  assumes "served s"
  shows "(\<forall>i j. phase_of s i = Storing \<and> phase_of s j = Storing \<longrightarrow> i = j) \<and>
         (\<forall>i. phase_of s i = Absent \<longrightarrow>
              route_step s (s\<lparr>phase_of := (phase_of s)(i := Scanning)\<rparr>)) \<and>
         (\<forall>i. \<exists>t. route_step\<^sup>*\<^sup>* s t \<and> phase_of t i = Responded)"
proof -
  from assms have a: "lock_agrees s" by (rule served_lock_agrees)
  have "\<forall>i j. phase_of s i = Storing \<and> phase_of s j = Storing \<longrightarrow> i = j"
  proof (intro allI impI)
    fix i j assume "phase_of s i = Storing \<and> phase_of s j = Storing"
    with a have "lock_holder s = Some i" "lock_holder s = Some j"
      unfolding lock_agrees_def by blast+
    then show "i = j" by simp
  qed
  moreover have "\<forall>i. phase_of s i = Absent \<longrightarrow>
              route_step s (s\<lparr>phase_of := (phase_of s)(i := Scanning)\<rparr>)"
    by (auto intro: route_step.arrive)
  moreover have "\<forall>i. \<exists>t. route_step\<^sup>*\<^sup>* s t \<and> phase_of t i = Responded"
    using a runs_to_response by blast
  ultimately show ?thesis by (intro conjI)
qed

lemma served_two_scanning: "served two_scanning"
proof -
  let ?s1 = "server_start\<lparr>phase_of := (phase_of server_start)(0 := Scanning)\<rparr>"
  have "route_step server_start ?s1"
    by (rule route_step.arrive) (simp add: server_start_def)
  with served.initially have 1: "served ?s1" by (rule served.after)
  have "route_step ?s1 (?s1\<lparr>phase_of := (phase_of ?s1)(1 := Scanning)\<rparr>)"
    by (rule route_step.arrive) (simp add: server_start_def)
  with 1 have "served (?s1\<lparr>phase_of := (phase_of ?s1)(1 := Scanning)\<rparr>)" by (rule served.after)
  then show ?thesis by (simp add: two_scanning_def server_start_def)
qed

text \<open>
  A second request that arrives while the first is scanning starts scanning too: the
  server reaches a state in which both scans run.
\<close>

theorem concurrent_scans_counterexample:
  "served two_scanning \<and> phase_of two_scanning 0 = Scanning \<and> phase_of two_scanning 1 = Scanning"
  using served_two_scanning by (simp add: two_scanning_def)

lemma served_storing_waiting: "served storing_waiting"
proof -
  let ?s1 = "server_start\<lparr>phase_of := (phase_of server_start)(0 := Scanning)\<rparr>"
  let ?s2 = "?s1\<lparr>phase_of := (phase_of ?s1)(0 := Waiting)\<rparr>"
  let ?s3 = "?s2\<lparr>phase_of := (phase_of ?s2)(0 := Storing), lock_holder := Some 0\<rparr>"
  let ?s4 = "?s3\<lparr>phase_of := (phase_of ?s3)(1 := Scanning)\<rparr>"
  let ?s5 = "?s4\<lparr>phase_of := (phase_of ?s4)(1 := Waiting)\<rparr>"
  have "route_step server_start ?s1"
    by (rule route_step.arrive) (simp add: server_start_def)
  with served.initially have 1: "served ?s1" by (rule served.after)
  have "route_step ?s1 ?s2"
    by (rule route_step.scanned) simp
  with 1 have 2: "served ?s2" by (rule served.after)
  have "route_step ?s2 ?s3"
    by (rule route_step.enter) (simp_all add: server_start_def)
  with 2 have 3: "served ?s3" by (rule served.after)
  have "route_step ?s3 ?s4"
    by (rule route_step.arrive) (simp add: server_start_def)
  with 3 have 4: "served ?s4" by (rule served.after)
  have "route_step ?s4 ?s5"
    by (rule route_step.scanned) simp
  with 4 have "served ?s5" by (rule served.after)
  then show ?thesis by (simp add: storing_waiting_def server_start_def)
qed

theorem scan_lock_guards_store_only_witness:
  "served storing_waiting \<and>
   phase_of storing_waiting 0 = Storing \<and>
   phase_of storing_waiting 1 \<noteq> Storing \<and>
   (\<exists>t. route_step\<^sup>*\<^sup>* storing_waiting t \<and> phase_of t 1 = Responded)"
proof -
  note t = scan_lock_guards_store_only [OF served_storing_waiting]
  have 0: "phase_of storing_waiting 0 = Storing"
    by (simp add: storing_waiting_def)
  from t have "phase_of storing_waiting 0 = Storing \<and> phase_of storing_waiting 1 = Storing \<longrightarrow>
      (0::nat) = 1"
    by blast
  with 0 have 1: "phase_of storing_waiting 1 \<noteq> Storing" by simp
  from t have "\<exists>t. route_step\<^sup>*\<^sup>* storing_waiting t \<and> phase_of t 1 = Responded"
    by blast
  with served_storing_waiting 0 1 show ?thesis by (intro conjI)
qed

end
